theory Spec2Isabelle
  imports Main "HOL-Library.Sublist"
begin

section \<open>Column storage of stacked document arrays\<close>

text \<open>
  The development follows \<^verbatim>\<open>docarray/array/stacked/column_storage.py\<close>: the class
  \<^verbatim>\<open>ColumnStorage\<close> (four dictionaries of columns, a document type and a tensor type,
  and the \<^verbatim>\<open>ChainMap\<close> over the four dictionaries) and the class
  \<^verbatim>\<open>ColumnStorageView\<close> (a row index and a reference to a storage).
\<close>

subsection \<open>Exceptions\<close>

text \<open>
  Every exception the two classes can raise or let through, by its class and its
  argument. \<^verbatim>\<open>KeyError\<close> carries the missing key, as \<^verbatim>\<open>dict\<close> and \<^verbatim>\<open>ChainMap\<close> raise
  it; the others carry their message. \<^verbatim>\<open>ValueError\<close> is the zero step of a slice,
  \<^verbatim>\<open>TypeError\<close> is what \<^verbatim>\<open>iter\<close> raises.
\<close>

datatype error =
  KeyError string | IndexError string | RuntimeError string | ValueError string
  | TypeError string

text \<open>The argument of an exception, and whether a name occurs in it.\<close>

definition exception_text :: "error \<Rightarrow> string" where
  "exception_text e =
     (case e of
        KeyError key \<Rightarrow> key
      | IndexError msg \<Rightarrow> msg
      | RuntimeError msg \<Rightarrow> msg
      | ValueError msg \<Rightarrow> msg
      | TypeError msg \<Rightarrow> msg)"

definition names :: "error \<Rightarrow> string \<Rightarrow> bool" where
  "names e name = sublist name (exception_text e)"

subsection \<open>Dictionaries and the chain map\<close>

text \<open>
  A Python \<^verbatim>\<open>dict\<close> keeps its keys in insertion order: it is an association list,
  whose keys are pairwise distinct.
\<close>

type_synonym 'c dict = "(string \<times> 'c) list"

definition dict_keys :: "'c dict \<Rightarrow> string list" where
  "dict_keys d = map fst d"

text \<open>\<^verbatim>\<open>d[key]\<close>: the value stored under the key, \<^verbatim>\<open>KeyError(key)\<close> without one.\<close>

definition dict_getitem :: "'c dict \<Rightarrow> string \<Rightarrow> error + 'c" where
  "dict_getitem d key = (case map_of d key of None \<Rightarrow> Inl (KeyError key) | Some c \<Rightarrow> Inr c)"

text \<open>
  \<^verbatim>\<open>ChainMap.__getitem__\<close>: the maps are searched first to last, and the first one
  holding the key answers; \<^verbatim>\<open>__missing__\<close> raises \<^verbatim>\<open>KeyError(key)\<close> after the last.
\<close>

fun chainmap_getitem :: "'c dict list \<Rightarrow> string \<Rightarrow> error + 'c" where
  "chainmap_getitem [] key = Inl (KeyError key)"
| "chainmap_getitem (m # maps) key =
     (case map_of m key of Some c \<Rightarrow> Inr c | None \<Rightarrow> chainmap_getitem maps key)"



text \<open>\<^verbatim>\<open>ChainMap.__len__\<close>: the number of distinct keys of all maps.\<close>

definition chainmap_len :: "'c dict list \<Rightarrow> nat" where
  "chainmap_len maps = length (remdups (concat (map dict_keys maps)))"

subsection \<open>The storage\<close>

text \<open>
  The fields of \<^verbatim>\<open>ColumnStorage.__init__\<close>. A column holds one value per row; the
  values are Python objects, of one type \<open>'v\<close> here. The document type and the tensor
  type are classes the storage only hands on: they are their names.
\<close>

record 'v ColumnStorage =
  tensor_columns :: "'v list dict"
  doc_columns :: "'v list dict"
  da_columns :: "'v list dict"
  any_columns :: "'v list dict"
  document_type :: string
  tensor_type :: string

text \<open>
  \<^verbatim>\<open>self.columns\<close>: the chain map over the four dictionaries themselves, in the order
  tensor, doc, da, any. It holds the dictionaries, not copies, so it is a function of
  the storage.
\<close>

definition columns :: "'v ColumnStorage \<Rightarrow> 'v list dict list" where
  "columns self = [tensor_columns self, doc_columns self, da_columns self, any_columns self]"

text \<open>\<^verbatim>\<open>ColumnStorage.__len__\<close>: \<^verbatim>\<open>len(self.any_columns['id'])\<close>.\<close>

definition len_ColumnStorage :: "'v ColumnStorage \<Rightarrow> error + nat" where
  "len_ColumnStorage self =
     (case dict_getitem (any_columns self) ''id'' of
        Inl e \<Rightarrow> Inl e
      | Inr col \<Rightarrow> Inr (length col))"

subsection \<open>Index expressions\<close>

text \<open>
  \<^verbatim>\<open>IndexIterType = Union[slice, Iterable[int], Iterable[bool], None]\<close>, and the tuple
  that \<^verbatim>\<open>ColumnStorage.__getitem__\<close> tests for. A slice has an optional start, stop
  and step. A list is a mask by the booleans in it: the empty list is \<open>Ints []\<close>, and
  \<open>Bools\<close> holds at least one boolean. The annotation is not enforced, so any other
  object can be given as well: \<open>ObjectItem\<close> is such an object (a float, a string),
  by the name of its type.
\<close>

datatype slice = Slice (start: "int option") (stop: "int option") (step: "int option")

datatype index_seq = Ints "int list" | Bools "bool list"

datatype index_item =
  SliceItem slice | ListItem index_seq | TupleItem index_seq | NoneItem | ObjectItem string

text \<open>
  The positions a slice selects in a sequence of the given length, as Python's
  \<^verbatim>\<open>slice.indices\<close> computes them: a missing step is 1 and a zero step is a
  \<^verbatim>\<open>ValueError\<close>; a negative bound counts from the end; bounds are clamped to the
  sequence, so a slice never reads out of range.
\<close>

definition slice_range :: "int \<Rightarrow> int option \<Rightarrow> int option \<Rightarrow> nat \<Rightarrow> nat list" where
  "slice_range st lo hi len =
     (let n = int len;
          lower = (if st < 0 then - 1 else 0);
          upper = (if st < 0 then n - 1 else n);
          adjust = (\<lambda>x. if x < 0 then max (x + n) lower else min x upper);
          a = (case lo of
                 None \<Rightarrow> (if st < 0 then upper else lower)
               | Some x \<Rightarrow> adjust x);
          b = (case hi of
                 None \<Rightarrow> (if st < 0 then lower else upper)
               | Some x \<Rightarrow> adjust x);
          cnt = (if st < 0
                 then (if b < a then (a - b - 1) div (- st) + 1 else 0)
                 else (if a < b then (b - a - 1) div st + 1 else 0))
      in map (\<lambda>i. nat (a + int i * st)) [0..<nat cnt])"

definition slice_indices :: "slice \<Rightarrow> nat \<Rightarrow> error + nat list" where
  "slice_indices sl len =
     (let st = (case step sl of None \<Rightarrow> 1 | Some k \<Rightarrow> k)
      in if st = 0 then Inl (ValueError ''slice step cannot be zero'')
         else Inr (slice_range st (start sl) (stop sl) len))"

subsection \<open>Columns\<close>

text \<open>
  Modelled from the spec: the classes of the columns (the tensors behind
  \<^verbatim>\<open>AbstractTensor\<close>, whose \<^verbatim>\<open>__getitem__\<close> and \<^verbatim>\<open>__setitem__\<close> are abstract,
  \<^verbatim>\<open>DocumentArrayStacked\<close> and \<^verbatim>\<open>ListAdvanceIndex\<close>) are not among the sources.
  The specification gives all of them one indexing contract: a column is a sequence of
  one value per row; a single integer selects a row; a slice, a list of integers and a
  boolean mask of the column's length select a new column; the list of integers is
  followed in its own order, the mask keeps the rows where it is true in their original
  order; an integer out of range, a mask of another length and any other shape fail
  with \<^verbatim>\<open>IndexError\<close>. The specification does not speak of negative integers; as in
  Python, \<open>-1\<close> is the last row. The specification gives the exception its class and
  no text: the text here says what was wrong with the index. A column is given itself
  and the index and nothing else, so its text cannot tell which dictionary holds the
  column, or under which key.
\<close>

definition row_position :: "nat \<Rightarrow> int \<Rightarrow> error + nat" where
  "row_position len i =
     (if 0 \<le> i \<and> i < int len then Inr (nat i)
      else if i < 0 \<and> - int len \<le> i then Inr (nat (int len + i))
      else Inl (IndexError ''index out of range''))"

text \<open>Modelled from the spec: \<^verbatim>\<open>col[i]\<close> for an integer, the row at that position.\<close>

definition column_get :: "'v list \<Rightarrow> int \<Rightarrow> error + 'v" where
  "column_get col i =
     (case row_position (length col) i of Inl e \<Rightarrow> Inl e | Inr j \<Rightarrow> Inr (col ! j))"

text \<open>
  Modelled from the spec: \<^verbatim>\<open>col[i] = value\<close>, the in-place write of one row; the
  result is the column after the write.
\<close>

definition column_set :: "'v list \<Rightarrow> int \<Rightarrow> 'v \<Rightarrow> error + 'v list" where
  "column_set col i v =
     (case row_position (length col) i of Inl e \<Rightarrow> Inl e | Inr j \<Rightarrow> Inr (col[j := v]))"

text \<open>Modelled from the spec: the gather by a list of integers, in the list's order.\<close>

fun column_gather :: "'v list \<Rightarrow> int list \<Rightarrow> error + 'v list" where
  "column_gather col [] = Inr []"
| "column_gather col (i # rest) =
     (case column_get col i of
        Inl e \<Rightarrow> Inl e
      | Inr x \<Rightarrow> (case column_gather col rest of Inl e \<Rightarrow> Inl e | Inr xs \<Rightarrow> Inr (x # xs)))"

text \<open>Modelled from the spec: the selection by a boolean mask of the column's length.\<close>

definition column_mask :: "'v list \<Rightarrow> bool list \<Rightarrow> error + 'v list" where
  "column_mask col bs =
     (if length bs \<noteq> length col then Inl (IndexError ''mask of another length'')
      else Inr (map fst (filter snd (zip col bs))))"

text \<open>
  Modelled from the spec: \<^verbatim>\<open>col[item]\<close> for an index expression. A tuple reaches a
  column only if the storage has not turned it into a list. The specification has a
  tuple, \<^verbatim>\<open>None\<close> and any other object among no shape that a column accepts.
\<close>

fun column_getitem :: "'v list \<Rightarrow> index_item \<Rightarrow> error + 'v list" where
  "column_getitem col (SliceItem sl) =
     (case slice_indices sl (length col) of
        Inl e \<Rightarrow> Inl e
      | Inr js \<Rightarrow> Inr (map (\<lambda>j. col ! j) js))"
| "column_getitem col (ListItem (Ints is)) = column_gather col is"
| "column_getitem col (ListItem (Bools bs)) = column_mask col bs"
| "column_getitem col (TupleItem xs) = Inl (IndexError ''unsupported index'')"
| "column_getitem col NoneItem = Inl (IndexError ''unsupported index'')"
| "column_getitem col (ObjectItem t) = Inl (IndexError ''unsupported index'')"

subsection \<open>Indexing a storage\<close>

text \<open>
  \<^verbatim>\<open>{key: col[item] for key, col in d.items()}\<close>: the entries are visited in the
  dictionary's order and the first \<^verbatim>\<open>col[item]\<close> that raises ends the comprehension.
  The keys of \<^verbatim>\<open>items()\<close> are distinct, so each entry is appended to the new
  dictionary.
\<close>

fun dict_comprehension :: "('c \<Rightarrow> error + 'd) \<Rightarrow> 'c dict \<Rightarrow> error + 'd dict" where
  "dict_comprehension f [] = Inr []"
| "dict_comprehension f ((key, col) # rest) =
     (case f col of
        Inl e \<Rightarrow> Inl e
      | Inr col' \<Rightarrow>
          (case dict_comprehension f rest of
             Inl e \<Rightarrow> Inl e
           | Inr rest' \<Rightarrow> Inr ((key, col') # rest')))"

text \<open>\<^verbatim>\<open>if isinstance(item, tuple): item = list(item)\<close>.\<close>

definition normalize_item :: "index_item \<Rightarrow> index_item" where
  "normalize_item item = (case item of TupleItem xs \<Rightarrow> ListItem xs | _ \<Rightarrow> item)"

text \<open>
  \<^verbatim>\<open>ColumnStorage.__getitem__\<close>: the four comprehensions in the order tensor, doc, da,
  any, then a new storage with the document type and the tensor type of \<^verbatim>\<open>self\<close>.
  There is no \<^verbatim>\<open>try\<close>: what a column raises leaves the method as it is.
\<close>

definition getitem_ColumnStorage :: "'v ColumnStorage \<Rightarrow> index_item \<Rightarrow> error + 'v ColumnStorage" where
  "getitem_ColumnStorage self item0 =
     (let item = normalize_item item0 in
      case dict_comprehension (\<lambda>col. column_getitem col item) (tensor_columns self) of
        Inl e \<Rightarrow> Inl e
      | Inr tensor_columns' \<Rightarrow>
      (case dict_comprehension (\<lambda>col. column_getitem col item) (doc_columns self) of
        Inl e \<Rightarrow> Inl e
      | Inr doc_columns' \<Rightarrow>
      (case dict_comprehension (\<lambda>col. column_getitem col item) (da_columns self) of
        Inl e \<Rightarrow> Inl e
      | Inr da_columns' \<Rightarrow>
      (case dict_comprehension (\<lambda>col. column_getitem col item) (any_columns self) of
        Inl e \<Rightarrow> Inl e
      | Inr any_columns' \<Rightarrow>
          Inr \<lparr>tensor_columns = tensor_columns', doc_columns = doc_columns',
               da_columns = da_columns', any_columns = any_columns',
               document_type = document_type self, tensor_type = tensor_type self\<rparr>))))"

subsection \<open>Storages as objects\<close>

text \<open>
  A view holds a reference to a storage and writes through it, so storages live in a
  store, addressed by references. Every reference a view holds is to a live storage.
\<close>

type_synonym 'v heap = "nat \<Rightarrow> 'v ColumnStorage"


subsection \<open>The view\<close>

text \<open>
  \<^verbatim>\<open>ColumnStorageView(dict, MutableMapping)\<close>: the two fields of the class, and the
  contents of the \<^verbatim>\<open>dict\<close> it inherits from.
\<close>

record 'v ColumnStorageView =
  index :: int
  storage :: nat
  dict_base :: "'v dict"

text \<open>\<^verbatim>\<open>__init__\<close>: \<^verbatim>\<open>super().__init__()\<close> makes the inherited dictionary empty.\<close>

definition init_ColumnStorageView :: "int \<Rightarrow> nat \<Rightarrow> 'v ColumnStorageView" where
  "init_ColumnStorageView i r = \<lparr>index = i, storage = r, dict_base = []\<rparr>"

text \<open>\<^verbatim>\<open>__getitem__\<close>: \<^verbatim>\<open>self.storage.columns[name][self.index]\<close>.\<close>

definition getitem_view :: "'v heap \<Rightarrow> 'v ColumnStorageView \<Rightarrow> string \<Rightarrow> error + 'v" where
  "getitem_view h self name =
     (case chainmap_getitem (columns (h (storage self))) name of
        Inl e \<Rightarrow> Inl e
      | Inr col \<Rightarrow> column_get col (index self))"

text \<open>
  The column object that the chain map finds under a name is the one held by the first
  dictionary with that name; a write into it is seen there.
\<close>

definition dict_replace :: "string \<Rightarrow> 'c \<Rightarrow> 'c dict \<Rightarrow> 'c dict" where
  "dict_replace key c d = map (\<lambda>(k, x). if k = key then (k, c) else (k, x)) d"

definition store_column :: "'v ColumnStorage \<Rightarrow> string \<Rightarrow> 'v list \<Rightarrow> 'v ColumnStorage" where
  "store_column s name col =
     (if name \<in> set (dict_keys (tensor_columns s))
      then s\<lparr>tensor_columns := dict_replace name col (tensor_columns s)\<rparr>
      else if name \<in> set (dict_keys (doc_columns s))
      then s\<lparr>doc_columns := dict_replace name col (doc_columns s)\<rparr>
      else if name \<in> set (dict_keys (da_columns s))
      then s\<lparr>da_columns := dict_replace name col (da_columns s)\<rparr>
      else s\<lparr>any_columns := dict_replace name col (any_columns s)\<rparr>)"

text \<open>
  \<^verbatim>\<open>__setitem__\<close>: \<^verbatim>\<open>self.storage.columns[name][self.index] = value\<close>. The lookup
  is the chain map's \<^verbatim>\<open>__getitem__\<close>; the write is the column's. An exception leaves
  the store as it was.
\<close>

definition setitem_view :: "'v heap \<Rightarrow> 'v ColumnStorageView \<Rightarrow> string \<Rightarrow> 'v \<Rightarrow> (error + unit) \<times> 'v heap" where
  "setitem_view h self name value =
     (case chainmap_getitem (columns (h (storage self))) name of
        Inl e \<Rightarrow> (Inl e, h)
      | Inr col \<Rightarrow>
          (case column_set col (index self) value of
             Inl e \<Rightarrow> (Inl e, h)
           | Inr col' \<Rightarrow>
               (Inr (), h(storage self := store_column (h (storage self)) name col'))))"

text \<open>\<^verbatim>\<open>__delitem__\<close>: \<^verbatim>\<open>raise RuntimeError('Cannot delete an item from a StorageView')\<close>.\<close>

definition delitem_view :: "'v heap \<Rightarrow> 'v ColumnStorageView \<Rightarrow> string \<Rightarrow> (error + unit) \<times> 'v heap" where
  "delitem_view h self key = (Inl (RuntimeError ''Cannot delete an item from a StorageView''), h)"






text \<open>\<^verbatim>\<open>__len__\<close>: \<^verbatim>\<open>len(self.storage.columns)\<close>.\<close>

definition len_view :: "'v heap \<Rightarrow> 'v ColumnStorageView \<Rightarrow> nat" where
  "len_view h self = chainmap_len (columns (h (storage self)))"

text \<open>
  \<^verbatim>\<open>__eq__\<close> is not overridden: it is \<^verbatim>\<open>dict.__eq__\<close>, on the inherited dictionary.
  Two dictionaries are equal when they have as many entries and every entry of the
  first is an entry of the second.
\<close>

definition dict_eq :: "'v dict \<Rightarrow> 'v dict \<Rightarrow> bool" where
  "dict_eq a b = (length a = length b \<and> list_all (\<lambda>(k, v). map_of b k = Some v) a)"

definition eq_view :: "'v ColumnStorageView \<Rightarrow> 'v ColumnStorageView \<Rightarrow> bool" where
  "eq_view v1 v2 = dict_eq (dict_base v1) (dict_base v2)"

definition eq_view_dict :: "'v ColumnStorageView \<Rightarrow> 'v dict \<Rightarrow> bool" where
  "eq_view_dict v d = dict_eq (dict_base v) d"

subsection \<open>Invariants of a storage\<close>

text \<open>
  I1: every column of every group has \<open>n\<close> rows. I2: a name is a key of one group only
  (and once there). I3: \<^verbatim>\<open>any_columns['id']\<close> exists and has \<open>n\<close> rows.
\<close>

definition all_columns :: "'v ColumnStorage \<Rightarrow> 'v list dict" where
  "all_columns s = tensor_columns s @ doc_columns s @ da_columns s @ any_columns s"

definition I1 :: "'v ColumnStorage \<Rightarrow> nat \<Rightarrow> bool" where
  "I1 s n = list_all (\<lambda>(key, col). length col = n) (all_columns s)"

definition I2 :: "'v ColumnStorage \<Rightarrow> bool" where
  "I2 s = distinct (dict_keys (all_columns s))"

definition I3 :: "'v ColumnStorage \<Rightarrow> nat \<Rightarrow> bool" where
  "I3 s n = (case map_of (any_columns s) ''id'' of None \<Rightarrow> False | Some col \<Rightarrow> length col = n)"

definition storage_inv :: "'v ColumnStorage \<Rightarrow> nat \<Rightarrow> bool" where
  "storage_inv s n = (I1 s n \<and> I2 s \<and> I3 s n)"

text \<open>
  The index expressions that select rows of a storage of \<open>n\<close> rows: a slice (its step
  not zero), integers in range, a mask of \<open>n\<close> booleans, and a tuple of either.
\<close>

definition seq_in_range :: "nat \<Rightarrow> index_seq \<Rightarrow> bool" where
  "seq_in_range n xs =
     (case xs of
        Ints is \<Rightarrow> list_all (\<lambda>i. - int n \<le> i \<and> i < int n) is
      | Bools bs \<Rightarrow> length bs = n)"

definition accepted_item :: "nat \<Rightarrow> index_item \<Rightarrow> bool" where
  "accepted_item n item =
     (case item of
        SliceItem sl \<Rightarrow> step sl \<noteq> Some 0
      | ListItem xs \<Rightarrow> seq_in_range n xs
      | TupleItem xs \<Rightarrow> seq_in_range n xs
      | NoneItem \<Rightarrow> False
      | ObjectItem t \<Rightarrow> False)"

text \<open>
  The rows that an accepted expression selects from \<open>n\<close> rows, as positions, in the
  order of the result.
\<close>

definition selected_rows :: "nat \<Rightarrow> index_item \<Rightarrow> nat list" where
  "selected_rows n item =
     (case normalize_item item of
        SliceItem sl \<Rightarrow> (case slice_indices sl n of Inl e \<Rightarrow> [] | Inr js \<Rightarrow> js)
      | ListItem (Ints is) \<Rightarrow> map (\<lambda>i. nat (if i < 0 then int n + i else i)) is
      | ListItem (Bools bs) \<Rightarrow> map fst (filter snd (zip [0..<n] bs))
      | _ \<Rightarrow> [])"



text \<open>One function applied to every column of every group.\<close>

definition map_dict :: "('c \<Rightarrow> 'd) \<Rightarrow> 'c dict \<Rightarrow> 'd dict" where
  "map_dict f d = map (\<lambda>(key, col). (key, f col)) d"

definition map_columns :: "('v list \<Rightarrow> 'v list) \<Rightarrow> 'v ColumnStorage \<Rightarrow> 'v ColumnStorage" where
  "map_columns f s =
     \<lparr>tensor_columns = map_dict f (tensor_columns s), doc_columns = map_dict f (doc_columns s),
      da_columns = map_dict f (da_columns s), any_columns = map_dict f (any_columns s),
      document_type = document_type s, tensor_type = tensor_type s\<rparr>"

text \<open>The cell of a group at a key and a row, if there is one.\<close>

datatype group = TensorGroup | DocGroup | DaGroup | AnyGroup

definition group_columns :: "'v ColumnStorage \<Rightarrow> group \<Rightarrow> 'v list dict" where
  "group_columns s g =
     (case g of
        TensorGroup \<Rightarrow> tensor_columns s
      | DocGroup \<Rightarrow> doc_columns s
      | DaGroup \<Rightarrow> da_columns s
      | AnyGroup \<Rightarrow> any_columns s)"

definition cell :: "'v ColumnStorage \<Rightarrow> group \<Rightarrow> string \<Rightarrow> nat \<Rightarrow> 'v option" where
  "cell s g key j =
     (case map_of (group_columns s g) key of
        None \<Rightarrow> None
      | Some col \<Rightarrow> (if j < length col then Some (col ! j) else None))"

subsection \<open>Example storages\<close>

text \<open>
  Three rows with a tensor column \<^verbatim>\<open>vec\<close> and the generic columns \<^verbatim>\<open>id\<close> and
  \<^verbatim>\<open>tag\<close>; and three rows with the \<^verbatim>\<open>id\<close> column alone.
\<close>

definition example_storage :: "int ColumnStorage" where
  "example_storage =
     \<lparr>tensor_columns = [(''vec'', [10, 20, 30])], doc_columns = [], da_columns = [],
      any_columns = [(''id'', [1, 2, 3]), (''tag'', [7, 8, 9])],
      document_type = ''MyDoc'', tensor_type = ''NdArray''\<rparr>"

definition id_only_storage :: "int ColumnStorage" where
  "id_only_storage =
     \<lparr>tensor_columns = [], doc_columns = [], da_columns = [],
      any_columns = [(''id'', [1, 2, 3])],
      document_type = ''MyDoc'', tensor_type = ''NdArray''\<rparr>"

definition example_heap :: "int heap" where
  "example_heap = (\<lambda>r. if r = 0 then example_storage else id_only_storage)"

section \<open>Properties\<close>

subsection \<open>Length\<close>

text \<open>
  C4: for a storage whose \<^verbatim>\<open>any_columns\<close> has an \<^verbatim>\<open>id\<close> column, the length of the
  storage is returned, and it is exactly the length of that column.
\<close>

theorem len_is_id_column_length:
  "dict_getitem (any_columns self) ''id'' = Inr col \<Longrightarrow>
     len_ColumnStorage self = Inr (length col)"
  by (simp add: len_ColumnStorage_def)

theorem len_is_id_column_length_witness:
  "dict_getitem (any_columns example_storage) ''id'' = Inr [1, 2, 3]
   \<and> len_ColumnStorage example_storage = Inr 3"
proof -
  have h: "dict_getitem (any_columns example_storage) ''id'' = Inr [1, 2, 3]"
    by (simp add: dict_getitem_def example_storage_def)
  show ?thesis using h len_is_id_column_length [OF h] by simp
qed

subsection \<open>The keys of a view\<close>










subsection \<open>Deletion\<close>

text \<open>
  C8: deleting through a view fails with a \<^verbatim>\<open>RuntimeError\<close>, for every view, key and
  store, and the store after the attempt is the store before it.
\<close>

theorem delitem_view_always_fails:
  "(\<exists>msg. fst (delitem_view h self key) = Inl (RuntimeError msg))
   \<and> snd (delitem_view h self key) = h"
  by (simp add: delitem_view_def)

subsection \<open>Inherited equality\<close>

text \<open>
  C10: the constructor leaves the inherited dictionary empty and no method of the view
  writes into it, so under the inherited equality any two views are equal, and every
  view equals the empty dictionary, whatever the storages and the indices.
\<close>

theorem views_equal_under_dict_eq:
  "eq_view (init_ColumnStorageView i r) (init_ColumnStorageView j r')
   \<and> eq_view_dict (init_ColumnStorageView i r) []"
  by (simp add: eq_view_def eq_view_dict_def dict_eq_def init_ColumnStorageView_def)

subsection \<open>Reading and writing through a view\<close>

lemma map_of_dict_replace_other:
  "k' \<noteq> k \<Longrightarrow> map_of (dict_replace k c d) k' = map_of d k'"
  by (induction d) (auto simp: dict_replace_def)

lemma map_of_dict_replace_same:
  "k \<in> set (dict_keys d) \<Longrightarrow> map_of (dict_replace k c d) k = Some c"
  by (induction d) (auto simp: dict_replace_def dict_keys_def)

lemma map_of_None_keys: "map_of d k = None \<longleftrightarrow> k \<notin> set (dict_keys d)"
  by (simp add: map_of_eq_None_iff dict_keys_def)

lemma keys_all_columns:
  "set (dict_keys (all_columns s)) =
     set (dict_keys (tensor_columns s)) \<union> set (dict_keys (doc_columns s))
     \<union> set (dict_keys (da_columns s)) \<union> set (dict_keys (any_columns s))"
  by (auto simp: all_columns_def dict_keys_def)

lemma chainmap_absent:
  "k \<notin> set (dict_keys (all_columns s)) \<Longrightarrow> chainmap_getitem (columns s) k = Inl (KeyError k)"
  by (simp add: keys_all_columns columns_def map_of_None_keys [symmetric])

lemma chainmap_present:
  assumes "k \<in> set (dict_keys (all_columns s))"
  shows "\<exists>col. chainmap_getitem (columns s) k = Inr col"
proof -
  have "map_of (tensor_columns s) k \<noteq> None \<or> map_of (doc_columns s) k \<noteq> None
      \<or> map_of (da_columns s) k \<noteq> None \<or> map_of (any_columns s) k \<noteq> None"
    using assms by (simp add: keys_all_columns map_of_None_keys)
  then show ?thesis
    by (auto simp: columns_def split: option.splits)
qed

lemma chainmap_Inr_present:
  "chainmap_getitem (columns s) k = Inr col \<Longrightarrow> (k, col) \<in> set (all_columns s)"
  by (auto simp: columns_def all_columns_def split: option.splits dest: map_of_SomeD)

lemma columns_store_column:
  "columns (store_column s k c) =
     (if k \<in> set (dict_keys (tensor_columns s))
      then [dict_replace k c (tensor_columns s), doc_columns s, da_columns s, any_columns s]
      else if k \<in> set (dict_keys (doc_columns s))
      then [tensor_columns s, dict_replace k c (doc_columns s), da_columns s, any_columns s]
      else if k \<in> set (dict_keys (da_columns s))
      then [tensor_columns s, doc_columns s, dict_replace k c (da_columns s), any_columns s]
      else [tensor_columns s, doc_columns s, da_columns s, dict_replace k c (any_columns s)])"
  by (simp add: columns_def store_column_def)

lemma chainmap_getitem_Cons_None:
  "map_of m k = None \<Longrightarrow> chainmap_getitem (m # maps) k = chainmap_getitem maps k"
  by simp

lemma chainmap_getitem_Cons_Some:
  "map_of m k = Some c \<Longrightarrow> chainmap_getitem (m # maps) k = Inr c"
  by simp

lemma chainmap_getitem_cong:
  "map (\<lambda>m. map_of m k) maps = map (\<lambda>m. map_of m k) maps' \<Longrightarrow>
     chainmap_getitem maps k = chainmap_getitem maps' k"
proof (induction maps arbitrary: maps')
  case Nil
  then show ?case by simp
next
  case (Cons m maps)
  then obtain m' ms' where maps': "maps' = m' # ms'" by (cases maps') auto
  with Cons.prems have "map_of m k = map_of m' k"
    and "map (\<lambda>m. map_of m k) maps = map (\<lambda>m. map_of m k) ms'" by simp_all
  with Cons.IH [of ms'] maps' show ?case by (cases "map_of m' k") simp_all
qed

lemma lookup_store_other:
  "k' \<noteq> k \<Longrightarrow>
     chainmap_getitem (columns (store_column s k c)) k' = chainmap_getitem (columns s) k'"
proof (rule chainmap_getitem_cong)
  assume "k' \<noteq> k"
  then show "map (\<lambda>m. map_of m k') (columns (store_column s k c)) =
      map (\<lambda>m. map_of m k') (columns s)"
    unfolding columns_store_column by (simp add: columns_def map_of_dict_replace_other)
qed

lemma lookup_store_same:
  assumes "chainmap_getitem (columns s) k = Inr col"
  shows "chainmap_getitem (columns (store_column s k c)) k = Inr c"
proof -
  have in_any: "k \<notin> set (dict_keys (tensor_columns s)) \<Longrightarrow>
      k \<notin> set (dict_keys (doc_columns s)) \<Longrightarrow> k \<notin> set (dict_keys (da_columns s)) \<Longrightarrow>
      k \<in> set (dict_keys (any_columns s))"
  proof (rule ccontr)
    assume "k \<notin> set (dict_keys (tensor_columns s))" "k \<notin> set (dict_keys (doc_columns s))"
      "k \<notin> set (dict_keys (da_columns s))" "k \<notin> set (dict_keys (any_columns s))"
    then have "chainmap_getitem (columns s) k = Inl (KeyError k)"
      by (simp add: columns_def map_of_None_keys [symmetric])
    with assms show False by simp
  qed
  show ?thesis
    unfolding columns_store_column
    using in_any
    by (simp add: map_of_dict_replace_same map_of_None_keys chainmap_getitem_Cons_Some
        chainmap_getitem_Cons_None del: chainmap_getitem.simps)
qed

lemma column_get_not_KeyError: "column_get col i \<noteq> Inl (KeyError k)"
  by (simp add: column_get_def row_position_def)

lemma column_set_not_KeyError: "column_set col i v \<noteq> Inl (KeyError k)"
  by (simp add: column_set_def row_position_def)

text \<open>
  C7: reading a key through a view gives the row at the view's index of the column that
  the chain map finds under the key, in the store as it is at the time of the read. A
  read and a write fail with \<^verbatim>\<open>KeyError\<close> when the key is in none of the four groups,
  and with no \<^verbatim>\<open>KeyError\<close> when it is in one.
\<close>

theorem view_KeyError_iff_absent:
  "(k \<notin> set (dict_keys (all_columns (h (storage self)))) \<longrightarrow>
      getitem_view h self k = Inl (KeyError k)
      \<and> setitem_view h self k x = (Inl (KeyError k), h))
   \<and> (k \<in> set (dict_keys (all_columns (h (storage self)))) \<longrightarrow>
      (\<exists>col. chainmap_getitem (columns (h (storage self))) k = Inr col
         \<and> getitem_view h self k = column_get col (index self))
      \<and> (\<forall>k'. getitem_view h self k \<noteq> Inl (KeyError k')
           \<and> fst (setitem_view h self k x) \<noteq> Inl (KeyError k')))"
proof (intro conjI impI)
  assume a: "k \<notin> set (dict_keys (all_columns (h (storage self))))"
  show "getitem_view h self k = Inl (KeyError k)"
    by (simp add: getitem_view_def chainmap_absent [OF a])
  show "setitem_view h self k x = (Inl (KeyError k), h)"
    by (simp add: setitem_view_def chainmap_absent [OF a])
next
  assume p: "k \<in> set (dict_keys (all_columns (h (storage self))))"
  from chainmap_present [OF p] obtain col
    where col: "chainmap_getitem (columns (h (storage self))) k = Inr col" by blast
  show "\<exists>col. chainmap_getitem (columns (h (storage self))) k = Inr col
         \<and> getitem_view h self k = column_get col (index self)"
    using col by (simp add: getitem_view_def)
  show "\<forall>k'. getitem_view h self k \<noteq> Inl (KeyError k')
           \<and> fst (setitem_view h self k x) \<noteq> Inl (KeyError k')"
  proof (intro allI conjI)
    fix k'
    show "getitem_view h self k \<noteq> Inl (KeyError k')"
      using col by (simp add: getitem_view_def column_get_not_KeyError)
    show "fst (setitem_view h self k x) \<noteq> Inl (KeyError k')"
      using col column_set_not_KeyError [of col "index self" x k']
      by (auto simp: setitem_view_def split: sum.splits)
  qed
qed

theorem view_KeyError_iff_absent_witness:
  "''nope'' \<notin> set (dict_keys (all_columns (example_heap 0)))
   \<and> getitem_view example_heap (init_ColumnStorageView 1 0) ''nope'' = Inl (KeyError ''nope'')
   \<and> setitem_view example_heap (init_ColumnStorageView 1 0) ''nope'' 99
        = (Inl (KeyError ''nope''), example_heap)
   \<and> ''tag'' \<in> set (dict_keys (all_columns (example_heap 0)))
   \<and> getitem_view example_heap (init_ColumnStorageView 1 0) ''tag'' = Inr 8
   \<and> getitem_view example_heap (init_ColumnStorageView 1 0) ''tag'' \<noteq> Inl (KeyError ''tag'')"
proof -
  have a: "''nope'' \<notin> set (dict_keys (all_columns (example_heap 0)))"
    by (simp add: example_heap_def example_storage_def all_columns_def dict_keys_def)
  have p: "''tag'' \<in> set (dict_keys (all_columns (example_heap 0)))"
    by (simp add: example_heap_def example_storage_def all_columns_def dict_keys_def)
  have g: "getitem_view example_heap (init_ColumnStorageView 1 0) ''tag'' = Inr 8"
    by (simp add: getitem_view_def init_ColumnStorageView_def example_heap_def
        example_storage_def columns_def column_get_def row_position_def)
  have s0: "storage (init_ColumnStorageView 1 0 :: int ColumnStorageView) = 0"
    by (simp add: init_ColumnStorageView_def)
  show ?thesis
    using a p g
      view_KeyError_iff_absent [of "''nope''" example_heap "init_ColumnStorageView 1 0" 99]
      view_KeyError_iff_absent [of "''tag''" example_heap "init_ColumnStorageView 1 0" 99]
    by (simp add: s0)
qed


lemma I1_length:
  "I1 s n \<Longrightarrow> (k, col) \<in> set (all_columns s) \<Longrightarrow> length col = n"
  by (auto simp: I1_def list_all_iff)

lemma column_set_in_range:
  "0 \<le> i \<Longrightarrow> i < int (length col) \<Longrightarrow> column_set col i x = Inr (col[nat i := x])"
  by (simp add: column_set_def row_position_def)

lemma column_get_in_range:
  "0 \<le> i \<Longrightarrow> i < int (length col) \<Longrightarrow> column_get col i = Inr (col ! nat i)"
  by (simp add: column_get_def row_position_def)

lemma setitem_view_in_range:
  assumes "chainmap_getitem (columns (h (storage self))) k = Inr col"
    and "0 \<le> index self" "index self < int (length col)"
  shows "setitem_view h self k x =
      (Inr (), h(storage self := store_column (h (storage self)) k (col[nat (index self) := x])))"
  using assms by (simp add: setitem_view_def column_set_in_range)

lemma getitem_view_in_range:
  assumes "chainmap_getitem (columns (h (storage self))) k = Inr col"
    and "0 \<le> index self" "index self < int (length col)"
  shows "getitem_view h self k = Inr (col ! nat (index self))"
  using assms by (simp add: getitem_view_def column_get_in_range)

text \<open>
  C3: in a storage of \<open>n\<close> rows, for a row index in \<open>[0, n)\<close>, a key of the storage
  and any value: the write through a view succeeds, the same view then reads the value
  under the key, and so does a view newly made for the same storage and index.
\<close>

theorem view_set_get_roundtrip:
  assumes inv: "I1 (h r) n" "I3 (h r) n"
    and key: "k \<in> set (dict_keys (all_columns (h r)))"
    and idx: "0 \<le> i" "i < int n"
    and view: "index self = i" "storage self = r"
  shows "\<exists>h'. setitem_view h self k x = (Inr (), h')
            \<and> getitem_view h' self k = Inr x
            \<and> getitem_view h' (init_ColumnStorageView i r) k = Inr x"
proof -
  from chainmap_present [OF key] obtain col
    where col: "chainmap_getitem (columns (h r)) k = Inr col" by blast
  have len: "length col = n"
    using I1_length [OF inv(1) chainmap_Inr_present [OF col]] .
  define h' where "h' = h(r := store_column (h r) k (col[nat i := x]))"
  have set: "setitem_view h self k x = (Inr (), h')"
    using setitem_view_in_range [of h self k col x] col idx len view by (simp add: h'_def)
  have col': "chainmap_getitem (columns (h' r)) k = Inr (col[nat i := x])"
    using lookup_store_same [OF col] by (simp add: h'_def)
  have read: "\<And>v. index v = i \<Longrightarrow> storage v = r \<Longrightarrow> getitem_view h' v k = Inr x"
  proof -
    fix v :: "'a ColumnStorageView"
    assume v: "index v = i" "storage v = r"
    have "getitem_view h' v k = Inr (col[nat i := x] ! nat (index v))"
      by (rule getitem_view_in_range) (use col' v idx len in simp_all)
    then show "getitem_view h' v k = Inr x"
      using v idx len by simp
  qed
  have "getitem_view h' self k = Inr x" using read view by blast
  moreover have "getitem_view h' (init_ColumnStorageView i r) k = Inr x"
    by (rule read) (simp_all add: init_ColumnStorageView_def)
  ultimately show ?thesis using set by blast
qed

theorem view_set_get_roundtrip_witness:
  "I1 (example_heap 0) 3 \<and> I3 (example_heap 0) 3
   \<and> ''tag'' \<in> set (dict_keys (all_columns (example_heap 0)))
   \<and> (0::int) \<le> 1 \<and> (1::int) < int 3
   \<and> (\<exists>h'. setitem_view example_heap (init_ColumnStorageView 1 0) ''tag'' 99 = (Inr (), h')
          \<and> getitem_view h' (init_ColumnStorageView 1 0) ''tag'' = Inr 99)"
proof -
  have i1: "I1 (example_heap 0) 3"
    by (simp add: I1_def all_columns_def example_heap_def example_storage_def)
  have i3: "I3 (example_heap 0) 3"
    by (simp add: I3_def example_heap_def example_storage_def)
  have key: "''tag'' \<in> set (dict_keys (all_columns (example_heap 0)))"
    by (simp add: example_heap_def example_storage_def all_columns_def dict_keys_def)
  have lo: "(0::int) \<le> 1" and hi: "(1::int) < int 3" by simp_all
  have ix: "index (init_ColumnStorageView 1 0 :: int ColumnStorageView) = 1"
    and st: "storage (init_ColumnStorageView 1 0 :: int ColumnStorageView) = 0"
    by (simp_all add: init_ColumnStorageView_def)
  from view_set_get_roundtrip [where h = example_heap and r = 0 and x = 99, OF i1 i3 key lo hi ix st]
  show ?thesis using i1 i3 key by auto
qed


lemma dict_replace_cell:
  assumes "map_of d k = Some col" and "(k', m) \<noteq> (k, p)"
  shows "(case map_of (dict_replace k (col[p := x]) d) k' of
            None \<Rightarrow> None
          | Some c \<Rightarrow> (if m < length c then Some (c ! m) else None))
       = (case map_of d k' of
            None \<Rightarrow> None
          | Some c \<Rightarrow> (if m < length c then Some (c ! m) else None))"
proof (cases "k' = k")
  case True
  have "k \<in> set (dict_keys d)"
    using assms(1) map_of_None_keys [of d k] by auto
  then have "map_of (dict_replace k (col[p := x]) d) k = Some (col[p := x])"
    by (rule map_of_dict_replace_same)
  with True assms show ?thesis by simp
next
  case False
  then show ?thesis by (simp add: map_of_dict_replace_other)
qed

lemma map_of_Some_keys: "map_of d k = Some col \<Longrightarrow> k \<in> set (dict_keys d)"
  using map_of_None_keys [of d k] by auto

lemma store_column_cell:
  assumes col: "chainmap_getitem (columns s) k = Inr col" and ne: "(k', m) \<noteq> (k, p)"
  shows "cell (store_column s k (col[p := x])) g k' m = cell s g k' m"
proof -
  consider (t) "map_of (tensor_columns s) k = Some col"
    | (d) "map_of (tensor_columns s) k = None" "map_of (doc_columns s) k = Some col"
    | (a) "map_of (tensor_columns s) k = None" "map_of (doc_columns s) k = None"
          "map_of (da_columns s) k = Some col"
    | (y) "map_of (tensor_columns s) k = None" "map_of (doc_columns s) k = None"
          "map_of (da_columns s) k = None" "map_of (any_columns s) k = Some col"
    using col by (auto simp: columns_def split: option.splits)
  then show ?thesis
  proof cases
    case t
    then have "store_column s k (col[p := x])
        = s\<lparr>tensor_columns := dict_replace k (col[p := x]) (tensor_columns s)\<rparr>"
      by (simp add: store_column_def map_of_Some_keys)
    with t ne show ?thesis
      by (cases g) (simp_all add: cell_def group_columns_def dict_replace_cell)
  next
    case d
    then have "store_column s k (col[p := x])
        = s\<lparr>doc_columns := dict_replace k (col[p := x]) (doc_columns s)\<rparr>"
      by (simp add: store_column_def map_of_Some_keys map_of_None_keys)
    with d ne show ?thesis
      by (cases g) (simp_all add: cell_def group_columns_def dict_replace_cell)
  next
    case a
    then have "store_column s k (col[p := x])
        = s\<lparr>da_columns := dict_replace k (col[p := x]) (da_columns s)\<rparr>"
      by (simp add: store_column_def map_of_Some_keys map_of_None_keys)
    with a ne show ?thesis
      by (cases g) (simp_all add: cell_def group_columns_def dict_replace_cell)
  next
    case y
    then have "store_column s k (col[p := x])
        = s\<lparr>any_columns := dict_replace k (col[p := x]) (any_columns s)\<rparr>"
      by (simp add: store_column_def map_of_None_keys)
    with y ne show ?thesis
      by (cases g) (simp_all add: cell_def group_columns_def dict_replace_cell)
  qed
qed

text \<open>
  C6: two views of one storage of \<open>n\<close> rows, at indices in \<open>[0, n)\<close>. After a write
  through the first, the second reads the written value under the key if its index is
  the same, and reads every key as before if its index is another. In the storage only
  the cell at the key and the index may differ from before, in every group, and no
  other storage of the store is touched.
\<close>

theorem view_writes_are_per_cell:
  assumes inv: "I1 (h r) n" "I3 (h r) n"
    and key: "k \<in> set (dict_keys (all_columns (h r)))"
    and idx: "0 \<le> i" "i < int n" "0 \<le> j" "j < int n"
    and v1: "index v1 = i" "storage v1 = r"
    and v2: "index v2 = j" "storage v2 = r"
  shows "\<exists>h'. setitem_view h v1 k x = (Inr (), h')
     \<and> (i = j \<longrightarrow> getitem_view h' v2 k = Inr x)
     \<and> (i \<noteq> j \<longrightarrow> (\<forall>k'. getitem_view h' v2 k' = getitem_view h v2 k'))
     \<and> (\<forall>g k' m. (k', m) \<noteq> (k, nat i) \<longrightarrow> cell (h' r) g k' m = cell (h r) g k' m)
     \<and> (\<forall>r'. r' \<noteq> r \<longrightarrow> h' r' = h r')"
proof -
  from chainmap_present [OF key] obtain col
    where col: "chainmap_getitem (columns (h r)) k = Inr col" by blast
  have len: "length col = n"
    using I1_length [OF inv(1) chainmap_Inr_present [OF col]] .
  define h' where "h' = h(r := store_column (h r) k (col[nat i := x]))"
  have set: "setitem_view h v1 k x = (Inr (), h')"
    using setitem_view_in_range [of h v1 k col x] col idx len v1 by (simp add: h'_def)
  have col': "chainmap_getitem (columns (h' r)) k = Inr (col[nat i := x])"
    using lookup_store_same [OF col] by (simp add: h'_def)
  have other: "\<And>k'. k' \<noteq> k \<Longrightarrow>
      chainmap_getitem (columns (h' r)) k' = chainmap_getitem (columns (h r)) k'"
    by (simp add: h'_def lookup_store_other)
  have same: "i = j \<longrightarrow> getitem_view h' v2 k = Inr x"
  proof
    assume "i = j"
    have "getitem_view h' v2 k = Inr (col[nat i := x] ! nat (index v2))"
      by (rule getitem_view_in_range) (use col' v2 idx len in simp_all)
    then show "getitem_view h' v2 k = Inr x"
      using \<open>i = j\<close> v2 idx len by simp
  qed
  have diff: "i \<noteq> j \<longrightarrow> (\<forall>k'. getitem_view h' v2 k' = getitem_view h v2 k')"
  proof (intro impI allI)
    fix k'
    assume ne: "i \<noteq> j"
    show "getitem_view h' v2 k' = getitem_view h v2 k'"
    proof (cases "k' = k")
      case True
      have "getitem_view h' v2 k = Inr (col[nat i := x] ! nat (index v2))"
        by (rule getitem_view_in_range) (use col' v2 idx len in simp_all)
      moreover have "getitem_view h v2 k = Inr (col ! nat (index v2))"
        by (rule getitem_view_in_range) (use col v2 idx len in simp_all)
      moreover have "nat i \<noteq> nat j" using ne idx by simp
      ultimately show ?thesis using True v2 by simp
    next
      case False
      then show ?thesis using other [of k'] v2 by (simp add: getitem_view_def)
    qed
  qed
  have cells: "\<forall>g k' m. (k', m) \<noteq> (k, nat i) \<longrightarrow> cell (h' r) g k' m = cell (h r) g k' m"
    using store_column_cell [OF col] by (simp add: h'_def)
  have frame: "\<forall>r'. r' \<noteq> r \<longrightarrow> h' r' = h r'"
    by (simp add: h'_def)
  show ?thesis using set same diff cells frame by blast
qed

theorem view_writes_are_per_cell_witness:
  "I1 (example_heap 0) 3 \<and> I3 (example_heap 0) 3
   \<and> ''tag'' \<in> set (dict_keys (all_columns (example_heap 0)))
   \<and> (0::int) \<le> 1 \<and> (1::int) < int 3 \<and> (0::int) \<le> 2 \<and> (2::int) < int 3
   \<and> (\<exists>h'. setitem_view example_heap (init_ColumnStorageView 1 0) ''tag'' 99 = (Inr (), h')
          \<and> getitem_view h' (init_ColumnStorageView 2 0) ''tag''
              = getitem_view example_heap (init_ColumnStorageView 2 0) ''tag''
          \<and> cell (h' 0) AnyGroup ''id'' 1 = cell (example_heap 0) AnyGroup ''id'' 1
          \<and> h' 1 = example_heap 1)"
proof -
  have i1: "I1 (example_heap 0) 3"
    by (simp add: I1_def all_columns_def example_heap_def example_storage_def)
  have i3: "I3 (example_heap 0) 3"
    by (simp add: I3_def example_heap_def example_storage_def)
  have key: "''tag'' \<in> set (dict_keys (all_columns (example_heap 0)))"
    by (simp add: example_heap_def example_storage_def all_columns_def dict_keys_def)
  have b1: "(0::int) \<le> 1" "(1::int) < int 3" and b2: "(0::int) \<le> 2" "(2::int) < int 3"
    by simp_all
  have v1: "index (init_ColumnStorageView 1 0 :: int ColumnStorageView) = 1"
      "storage (init_ColumnStorageView 1 0 :: int ColumnStorageView) = 0"
    and v2: "index (init_ColumnStorageView 2 0 :: int ColumnStorageView) = 2"
      "storage (init_ColumnStorageView 2 0 :: int ColumnStorageView) = 0"
    by (simp_all add: init_ColumnStorageView_def)
  from view_writes_are_per_cell [where h = example_heap and r = 0 and x = 99, OF i1 i3 key b1 b2 v1 v2]
  obtain h' where h':
    "setitem_view example_heap (init_ColumnStorageView 1 0) ''tag'' 99 = (Inr (), h')"
    "(1::int) \<noteq> 2 \<longrightarrow> (\<forall>k'. getitem_view h' (init_ColumnStorageView 2 0) k'
        = getitem_view example_heap (init_ColumnStorageView 2 0) k')"
    "\<forall>g k' m. (k', m) \<noteq> (''tag'', nat 1) \<longrightarrow>
        cell (h' 0) g k' m = cell (example_heap 0) g k' m"
    "\<forall>r'. r' \<noteq> 0 \<longrightarrow> h' r' = example_heap r'"
    by blast
  have "getitem_view h' (init_ColumnStorageView 2 0) ''tag''
      = getitem_view example_heap (init_ColumnStorageView 2 0) ''tag''"
    using h'(2) by simp
  moreover have "cell (h' 0) AnyGroup ''id'' 1 = cell (example_heap 0) AnyGroup ''id'' 1"
    using h'(3) by simp
  moreover have "h' 1 = example_heap 1"
    using h'(4) by simp
  ultimately show ?thesis using i1 i3 key h'(1) by auto
qed

subsection \<open>Indexing a storage\<close>

text \<open>
  The slices \<^verbatim>\<open>[:]\<close>, \<^verbatim>\<open>[::-1]\<close>, \<^verbatim>\<open>[1:]\<close> and \<^verbatim>\<open>[-2:10:2]\<close> on three rows, and the
  zero step.
\<close>

lemma slice_indices_examples:
  "slice_indices (Slice None None None) 3 = Inr [0, 1, 2]"
  "slice_indices (Slice None None (Some (- 1))) 3 = Inr [2, 1, 0]"
  "slice_indices (Slice (Some 1) None None) 3 = Inr [1, 2]"
  "slice_indices (Slice (Some (- 2)) (Some 10) (Some 2)) 3 = Inr [1]"
  "slice_indices (Slice None None (Some 0)) 3 = Inl (ValueError ''slice step cannot be zero'')"
  by code_simp+

lemma column_gather_in_range:
  "list_all (\<lambda>i. - int (length col) \<le> i \<and> i < int (length col)) is \<Longrightarrow>
     column_gather col is
       = Inr (map (\<lambda>j. col ! j)
           (map (\<lambda>i. nat (if i < 0 then int (length col) + i else i)) is))"
  by (induction "is") (auto simp: column_get_def row_position_def)



lemma mask_map:
  "map fst (filter snd (zip (map f xs) bs)) = map f (map fst (filter snd (zip xs bs)))"
proof (induction xs arbitrary: bs)
  case Nil
  then show ?case by simp
next
  case (Cons x xs)
  then show ?case by (cases bs) auto
qed

lemma column_mask_rows:
  assumes "length bs = length col"
  shows "column_mask col bs
    = Inr (map (\<lambda>j. col ! j) (map fst (filter snd (zip [0..<length col] bs))))"
proof -
  have "map fst (filter snd (zip (map (\<lambda>j. col ! j) [0..<length col]) bs))
      = map (\<lambda>j. col ! j) (map fst (filter snd (zip [0..<length col] bs)))"
    by (rule mask_map)
  then show ?thesis using assms by (simp add: column_mask_def map_nth)
qed

lemma slice_indices_ok:
  "step sl \<noteq> Some 0 \<Longrightarrow> \<exists>js. slice_indices sl n = Inr js"
  by (cases "step sl") (simp_all add: slice_indices_def)

lemma column_getitem_accepted:
  assumes "accepted_item (length col) item"
  shows "column_getitem col (normalize_item item)
    = Inr (map (\<lambda>j. col ! j) (selected_rows (length col) item))"
proof (cases item)
  case (SliceItem sl)
  with assms obtain js where "slice_indices sl (length col) = Inr js"
    using slice_indices_ok [of sl "length col"] by (auto simp: accepted_item_def)
  with SliceItem show ?thesis by (simp add: normalize_item_def selected_rows_def)
next
  case (ListItem xs)
  with assms show ?thesis
    by (cases xs)
      (simp_all add: normalize_item_def selected_rows_def accepted_item_def seq_in_range_def
        column_gather_in_range column_mask_rows)
next
  case (TupleItem xs)
  with assms show ?thesis
    by (cases xs)
      (simp_all add: normalize_item_def selected_rows_def accepted_item_def seq_in_range_def
        column_gather_in_range column_mask_rows)
next
  case NoneItem
  with assms show ?thesis by (simp add: accepted_item_def)
next
  case (ObjectItem t)
  with assms show ?thesis by (simp add: accepted_item_def)
qed


lemma dict_comprehension_all_ok:
  "list_all (\<lambda>(key, col). f col = Inr (g col)) d \<Longrightarrow> dict_comprehension f d = Inr (map_dict g d)"
  by (induction d) (auto simp: map_dict_def)



lemma times_div_le:
  fixes i d s :: int
  assumes "0 < s" "i \<le> d div s"
  shows "i * s \<le> d"
proof -
  have "i * s \<le> (d div s) * s"
    using assms by (simp add: mult_right_mono)
  also have "(d div s) * s = d - d mod s"
    by (simp add: minus_mod_eq_div_mult)
  also have "\<dots> \<le> d"
    using assms(1) by simp
  finally show ?thesis .
qed

lemma slice_range_in_range:
  assumes st: "st \<noteq> 0" and p: "p \<in> set (slice_range st lo hi len)"
  shows "p < len"
proof -
  define n where "n = int len"
  define lower where "lower = (if st < 0 then - 1 else (0::int))"
  define upper where "upper = (if st < 0 then n - 1 else n)"
  define adjust where "adjust = (\<lambda>x::int. if x < 0 then max (x + n) lower else min x upper)"
  define a where "a = (case lo of None \<Rightarrow> (if st < 0 then upper else lower) | Some x \<Rightarrow> adjust x)"
  define b where "b = (case hi of None \<Rightarrow> (if st < 0 then lower else upper) | Some x \<Rightarrow> adjust x)"
  define cnt where "cnt = (if st < 0
                 then (if b < a then (a - b - 1) div (- st) + 1 else 0)
                 else (if a < b then (b - a - 1) div st + 1 else 0))"
  have range: "slice_range st lo hi len = map (\<lambda>i. nat (a + int i * st)) [0..<nat cnt]"
    unfolding slice_range_def Let_def cnt_def a_def b_def adjust_def lower_def upper_def n_def
    by (rule refl)
  from p obtain i where i: "i < nat cnt" and pi: "p = nat (a + int i * st)"
    by (auto simp: range)
  have n0: "0 \<le> n" by (simp add: n_def)
  have adj: "\<And>x. lower \<le> adjust x \<and> adjust x \<le> upper"
    using n0 by (auto simp: adjust_def lower_def upper_def)
  have lu: "lower \<le> upper" using n0 by (auto simp: lower_def upper_def)
  have a_bounds: "lower \<le> a \<and> a \<le> upper"
    using adj lu by (auto simp: a_def split: option.splits)
  have b_bounds: "lower \<le> b \<and> b \<le> upper"
    using adj lu by (auto simp: b_def split: option.splits)
  show ?thesis
  proof (cases "st < 0")
    case True
    with i have ba: "b < a" and ic: "int i \<le> (a - b - 1) div (- st)"
      by (auto simp: cnt_def split: if_splits)
    have "int i * (- st) \<le> a - b - 1"
      using times_div_le [of "- st" "int i" "a - b - 1"] True ic by simp
    then have lo': "b + 1 \<le> a + int i * st" by simp
    have "int i * st \<le> 0" using True by (simp add: mult_nonneg_nonpos)
    then have hi': "a + int i * st \<le> a" by simp
    from True a_bounds b_bounds have "a \<le> n - 1" "- 1 \<le> b"
      by (simp_all add: lower_def upper_def)
    with lo' hi' have "0 \<le> a + int i * st" "a + int i * st < n" by simp_all
    then show ?thesis by (simp add: pi n_def)
  next
    case False
    with st have pos: "0 < st" by simp
    with i have ab: "a < b" and ic: "int i \<le> (b - a - 1) div st"
      by (auto simp: cnt_def split: if_splits)
    have "int i * st \<le> b - a - 1"
      using times_div_le [of st "int i" "b - a - 1"] pos ic by simp
    then have hi': "a + int i * st \<le> b - 1" by simp
    have "0 \<le> int i * st" using pos by simp
    then have lo': "a \<le> a + int i * st" by simp
    from False a_bounds b_bounds have "0 \<le> a" "b \<le> n"
      by (simp_all add: lower_def upper_def)
    with lo' hi' have "0 \<le> a + int i * st" "a + int i * st < n" by simp_all
    then show ?thesis by (simp add: pi n_def)
  qed
qed

lemma slice_indices_in_range:
  assumes "slice_indices sl n = Inr js" and "p \<in> set js"
  shows "p < n"
proof -
  define st where "st = (case step sl of None \<Rightarrow> 1 | Some k \<Rightarrow> (k::int))"
  from assms(1) have "st \<noteq> 0" and "js = slice_range st (start sl) (stop sl) n"
    by (auto simp: slice_indices_def st_def Let_def split: if_splits)
  with slice_range_in_range [of st p "start sl" "stop sl" n] assms(2) show ?thesis by simp
qed

lemma selected_rows_in_range:
  assumes "accepted_item n item"
  shows "list_all (\<lambda>p. p < n) (selected_rows n item)"
proof -
  have sl: "\<And>sl. list_all (\<lambda>p. p < n) (case slice_indices sl n of Inl e \<Rightarrow> [] | Inr js \<Rightarrow> js)"
  proof -
    fix sl
    show "list_all (\<lambda>p. p < n) (case slice_indices sl n of Inl e \<Rightarrow> [] | Inr js \<Rightarrow> js)"
      by (cases "slice_indices sl n") (auto simp: list_all_iff dest: slice_indices_in_range)
  qed
  have ints: "\<And>is. list_all (\<lambda>i. - int n \<le> i \<and> i < int n) is \<Longrightarrow>
      list_all (\<lambda>p. p < n) (map (\<lambda>i. nat (if i < 0 then int n + i else i)) is)"
    by (auto simp: list_all_iff)
  have bools: "\<And>bs. list_all (\<lambda>p. p < n) (map fst (filter snd (zip [0..<n] bs)))"
    by (auto simp: list_all_iff dest!: set_zip_leftD)
  show ?thesis
  proof (cases item)
    case (SliceItem x)
    with assms sl show ?thesis
      by (simp add: selected_rows_def normalize_item_def accepted_item_def)
  next
    case (ListItem xs)
    with assms ints bools show ?thesis
      by (cases xs)
        (simp_all add: selected_rows_def normalize_item_def accepted_item_def seq_in_range_def)
  next
    case (TupleItem xs)
    with assms ints bools show ?thesis
      by (cases xs)
        (simp_all add: selected_rows_def normalize_item_def accepted_item_def seq_in_range_def)
  next
    case NoneItem
    with assms show ?thesis by (simp add: accepted_item_def)
  next
    case (ObjectItem t)
    with assms show ?thesis by (simp add: accepted_item_def)
  qed
qed

lemma dict_keys_map_dict: "dict_keys (map_dict f d) = dict_keys d"
  by (induction d) (auto simp: map_dict_def dict_keys_def)

lemma map_of_map_dict: "map_of (map_dict f d) k = map_option f (map_of d k)"
  by (induction d) (auto simp: map_dict_def)

lemma all_columns_map_columns: "all_columns (map_columns f s) = map_dict f (all_columns s)"
  by (simp add: all_columns_def map_columns_def map_dict_def)

lemma storage_inv_map_columns:
  assumes inv: "storage_inv s n" and len: "\<And>col. length col = n \<Longrightarrow> length (f col) = m"
  shows "storage_inv (map_columns f s) m"
proof -
  have "I1 (map_columns f s) m"
    using inv len
    by (auto simp: storage_inv_def I1_def all_columns_map_columns map_dict_def list_all_iff)
  moreover have "I2 (map_columns f s)"
    using inv by (simp add: storage_inv_def I2_def all_columns_map_columns dict_keys_map_dict)
  moreover have "I3 (map_columns f s) m"
    using inv len
    by (auto simp: storage_inv_def I3_def map_columns_def map_of_map_dict split: option.splits)
  ultimately show ?thesis by (simp add: storage_inv_def)
qed

lemma group_list_all:
  assumes "list_all P (all_columns s)"
  shows "list_all P (tensor_columns s)" "list_all P (doc_columns s)"
    "list_all P (da_columns s)" "list_all P (any_columns s)"
  using assms by (simp_all add: all_columns_def)

lemma getitem_ColumnStorage_all_ok:
  assumes "list_all (\<lambda>(key, col). column_getitem col (normalize_item item) = Inr (g col))
             (all_columns s)"
  shows "getitem_ColumnStorage s item = Inr (map_columns g s)"
  using group_list_all [OF assms]
  by (simp add: getitem_ColumnStorage_def dict_comprehension_all_ok map_columns_def)





text \<open>
  C1: on a storage of \<open>n\<close> rows that satisfies I1 to I3, indexing with an accepted
  expression (a slice, integers in range, a mask of \<open>n\<close> booleans, or a tuple, which is
  first made a list) returns a new storage: every column of the four groups is indexed
  with that one expression, which selects the same rows, all below \<open>n\<close>, from each;
  the document type and the tensor type are those of the source; and the new storage
  satisfies I1 to I3 for the number of selected rows.
\<close>

theorem getitem_ColumnStorage_closed:
  assumes inv: "storage_inv s n" and acc: "accepted_item n item"
  shows "getitem_ColumnStorage s item
           = Inr (map_columns (\<lambda>col. map (\<lambda>p. col ! p) (selected_rows n item)) s)
     \<and> list_all (\<lambda>(key, col). column_getitem col (normalize_item item)
           = Inr (map (\<lambda>p. col ! p) (selected_rows n item))) (all_columns s)
     \<and> list_all (\<lambda>p. p < n) (selected_rows n item)
     \<and> document_type (map_columns (\<lambda>col. map (\<lambda>p. col ! p) (selected_rows n item)) s)
           = document_type s
     \<and> tensor_type (map_columns (\<lambda>col. map (\<lambda>p. col ! p) (selected_rows n item)) s)
           = tensor_type s
     \<and> storage_inv (map_columns (\<lambda>col. map (\<lambda>p. col ! p) (selected_rows n item)) s)
           (length (selected_rows n item))"
proof -
  have cols: "list_all (\<lambda>(key, col). column_getitem col (normalize_item item)
           = Inr (map (\<lambda>p. col ! p) (selected_rows n item))) (all_columns s)"
    unfolding list_all_iff
  proof (intro ballI, clarify)
    fix key col
    assume "(key, col) \<in> set (all_columns s)"
    then have "length col = n"
      using inv by (auto simp: storage_inv_def I1_def list_all_iff)
    then show "column_getitem col (normalize_item item)
        = Inr (map (\<lambda>p. col ! p) (selected_rows n item))"
      using column_getitem_accepted [of col item] acc by simp
  qed
  have "storage_inv (map_columns (\<lambda>col. map (\<lambda>p. col ! p) (selected_rows n item)) s)
           (length (selected_rows n item))"
    by (rule storage_inv_map_columns [OF inv]) simp
  then show ?thesis
    using getitem_ColumnStorage_all_ok [OF cols] cols selected_rows_in_range [OF acc]
    by (simp add: map_columns_def)
qed


theorem getitem_ColumnStorage_closed_witness:
  "storage_inv example_storage 3 \<and> accepted_item 3 (TupleItem (Ints [0, 2]))
   \<and> getitem_ColumnStorage example_storage (TupleItem (Ints [0, 2]))
       = Inr \<lparr>tensor_columns = [(''vec'', [10, 30])], doc_columns = [], da_columns = [],
              any_columns = [(''id'', [1, 3]), (''tag'', [7, 9])],
              document_type = ''MyDoc'', tensor_type = ''NdArray''\<rparr>
   \<and> storage_inv \<lparr>tensor_columns = [(''vec'', [10, 30])], doc_columns = [], da_columns = [],
              any_columns = [(''id'', [1, 3]), (''tag'', [7, 9::int])],
              document_type = ''MyDoc'', tensor_type = ''NdArray''\<rparr> 2"
proof -
  have inv: "storage_inv example_storage 3"
    by (simp add: storage_inv_def I1_def I2_def I3_def all_columns_def dict_keys_def
        example_storage_def)
  have acc: "accepted_item 3 (TupleItem (Ints [0, 2]))"
    by (simp add: accepted_item_def seq_in_range_def)
  have rows: "selected_rows 3 (TupleItem (Ints [0, 2])) = [0, 2]"
    by (simp add: selected_rows_def normalize_item_def)
  have sub: "map_columns (\<lambda>col. map (\<lambda>p. col ! p) (selected_rows 3 (TupleItem (Ints [0, 2]))))
        example_storage
      = \<lparr>tensor_columns = [(''vec'', [10, 30])], doc_columns = [], da_columns = [],
              any_columns = [(''id'', [1, 3]), (''tag'', [7, 9])],
              document_type = ''MyDoc'', tensor_type = ''NdArray''\<rparr>"
    by (simp add: rows map_columns_def map_dict_def example_storage_def)
  have len: "length (selected_rows 3 (TupleItem (Ints [0, 2]))) = 2"
    by (simp add: rows)
  from getitem_ColumnStorage_closed [OF inv acc]
  show ?thesis using inv acc unfolding sub len by blast
qed

lemma column_gather_200:
  "length col = 3 \<Longrightarrow> column_getitem col (ListItem (Ints [2, 0, 0])) = Inr [col ! 2, col ! 0, col ! 0]"
  by (simp add: column_get_def row_position_def)

lemma column_mask_101:
  "length col = 3 \<Longrightarrow> column_getitem col (ListItem (Bools [True, False, True])) = Inr [col ! 0, col ! 2]"
  by (auto simp: column_mask_def numeral_3_eq_3 length_Suc_conv)

text \<open>
  C2: on a storage whose columns all have three rows, the index \<^verbatim>\<open>[2, 0, 0]\<close> yields in
  every column of every group the rows 2, 0, 0 in that order, and the mask
  \<^verbatim>\<open>[True, False, True]\<close> yields the rows 0 and 2 in their original order.
\<close>

theorem index_order_fidelity:
  assumes "I1 s 3"
  shows "getitem_ColumnStorage s (ListItem (Ints [2, 0, 0]))
           = Inr (map_columns (\<lambda>col. [col ! 2, col ! 0, col ! 0]) s)
     \<and> getitem_ColumnStorage s (ListItem (Bools [True, False, True]))
           = Inr (map_columns (\<lambda>col. [col ! 0, col ! 2]) s)"
proof
  have len: "\<And>key col. (key, col) \<in> set (all_columns s) \<Longrightarrow> length col = 3"
    using assms by (auto simp: I1_def list_all_iff)
  have "list_all (\<lambda>(key, col). column_getitem col (normalize_item (ListItem (Ints [2, 0, 0])))
      = Inr [col ! 2, col ! 0, col ! 0]) (all_columns s)"
    unfolding list_all_iff normalize_item_def using len column_gather_200 by fastforce
  then show "getitem_ColumnStorage s (ListItem (Ints [2, 0, 0]))
           = Inr (map_columns (\<lambda>col. [col ! 2, col ! 0, col ! 0]) s)"
    by (rule getitem_ColumnStorage_all_ok)
  have "list_all (\<lambda>(key, col).
        column_getitem col (normalize_item (ListItem (Bools [True, False, True])))
      = Inr [col ! 0, col ! 2]) (all_columns s)"
    unfolding list_all_iff normalize_item_def using len column_mask_101 by fastforce
  then show "getitem_ColumnStorage s (ListItem (Bools [True, False, True]))
           = Inr (map_columns (\<lambda>col. [col ! 0, col ! 2]) s)"
    by (rule getitem_ColumnStorage_all_ok)
qed

theorem index_order_fidelity_witness:
  "I1 example_storage 3
   \<and> getitem_ColumnStorage example_storage (ListItem (Ints [2, 0, 0]))
       = Inr \<lparr>tensor_columns = [(''vec'', [30, 10, 10])], doc_columns = [], da_columns = [],
              any_columns = [(''id'', [3, 1, 1]), (''tag'', [9, 7, 7])],
              document_type = ''MyDoc'', tensor_type = ''NdArray''\<rparr>
   \<and> getitem_ColumnStorage example_storage (ListItem (Bools [True, False, True]))
       = Inr \<lparr>tensor_columns = [(''vec'', [10, 30])], doc_columns = [], da_columns = [],
              any_columns = [(''id'', [1, 3]), (''tag'', [7, 9])],
              document_type = ''MyDoc'', tensor_type = ''NdArray''\<rparr>"
proof -
  have i1: "I1 example_storage 3"
    by (simp add: I1_def all_columns_def example_storage_def)
  from index_order_fidelity [OF i1]
  show ?thesis using i1 by (simp add: map_columns_def map_dict_def example_storage_def)
qed



text \<open>
  What naming is: a \<^verbatim>\<open>KeyError\<close> names its key, and an exception with group and key in
  its text would name them.
\<close>

lemma names_examples:
  "names (KeyError ''nope'') ''nope''"
  "names (IndexError ''tensor_columns[vec]: index out of range'') ''vec''"
  "names (IndexError ''tensor_columns[vec]: index out of range'') ''tensor''"
  by code_simp+


end
